theory Spec2Isabelle
  imports Main "HOL-Library.Multiset" "HOL-Library.Word"
begin

section \<open>Common.h of DLog: common utilities\<close>

text \<open>
  The header \<^verbatim>\<open>include/Common.h\<close> holds seven function templates with their bodies
  (\<^verbatim>\<open>unique\<close>, \<^verbatim>\<open>downCast\<close>, \<^verbatim>\<open>sorted\<close>, \<^verbatim>\<open>getKeys\<close>, \<^verbatim>\<open>getValues\<close>, \<^verbatim>\<open>getItems\<close>,
  \<^verbatim>\<open>hasOnly\<close>) and the declarations of \<^verbatim>\<open>format\<close>, the two \<^verbatim>\<open>isPrintable\<close> overloads and
  \<^verbatim>\<open>replaceAll\<close>, whose bodies live in a translation unit that is not part of the
  sources at hand.
\<close>

subsection \<open>Containers\<close>

text \<open>
  A container is the list of its elements in iteration order
  (\<^verbatim>\<open>begin()\<close> to \<^verbatim>\<open>end()\<close>); an associative container is the list of its
  \<^verbatim>\<open>(key, mapped)\<close> entries in iteration order. A \<^verbatim>\<open>std::vector\<close> under
  construction is a list that \<^verbatim>\<open>push_back\<close> extends at the end.
\<close>

definition push_back :: "'a list \<Rightarrow> 'a \<Rightarrow> 'a list" where
  "push_back v x = v @ [x]"

text \<open>
  \<^verbatim>\<open>for (auto it = map.begin(); it != map.end(); ++it) keys.push_back(it->first);\<close>
  The loop is a recursion over the remaining entries, the vector built so far is the
  accumulator.
\<close>

fun getKeys_loop :: "('k \<times> 'v) list \<Rightarrow> 'k list \<Rightarrow> 'k list" where
  "getKeys_loop [] keys = keys"
| "getKeys_loop (it # rest) keys = getKeys_loop rest (push_back keys (fst it))"

definition getKeys :: "('k \<times> 'v) list \<Rightarrow> 'k list" where
  "getKeys m = getKeys_loop m []"

fun getValues_loop :: "('k \<times> 'v) list \<Rightarrow> 'v list \<Rightarrow> 'v list" where
  "getValues_loop [] vals = vals"
| "getValues_loop (it # rest) vals = getValues_loop rest (push_back vals (snd it))"

definition getValues :: "('k \<times> 'v) list \<Rightarrow> 'v list" where
  "getValues m = getValues_loop m []"

fun getItems_loop :: "('k \<times> 'v) list \<Rightarrow> ('k \<times> 'v) list \<Rightarrow> ('k \<times> 'v) list" where
  "getItems_loop [] items = items"
| "getItems_loop (it # rest) items = getItems_loop rest (push_back items it)"

definition getItems :: "('k \<times> 'v) list \<Rightarrow> ('k \<times> 'v) list" where
  "getItems m = getItems_loop m []"

text \<open>
  \<^verbatim>\<open>hasOnly<Container, Item>\<close>: the loop returns \<^verbatim>\<open>false\<close> at the first element with
  \<^verbatim>\<open>*it != needle\<close> and \<^verbatim>\<open>true\<close> when it runs off the end. The element type of the
  container and the type of the needle are independent template parameters, and
  \<^verbatim>\<open>!=\<close> is whatever \<^verbatim>\<open>operator!=\<close> C++ selects for the two of them (with the usual
  arithmetic conversions on integers, not reflexive on a NaN, user-defined on a class),
  so the comparison is a parameter of the model: \<open>ne x y\<close> is the value of
  \<^verbatim>\<open>x != y\<close>.
\<close>

fun hasOnly :: "('a \<Rightarrow> 'b \<Rightarrow> bool) \<Rightarrow> 'a list \<Rightarrow> 'b \<Rightarrow> bool" where
  "hasOnly ne [] needle = True"
| "hasOnly ne (it # rest) needle = (if ne it needle then False else hasOnly ne rest needle)"

text \<open>
  \<^verbatim>\<open>sorted\<close> calls \<^verbatim>\<open>std::sort(container.begin(), container.end())\<close> and returns the
  container. \<^verbatim>\<open>std::sort\<close> belongs to the C++ standard library: it leaves the range
  in non-descending order of \<^verbatim>\<open>operator<\<close>, as a rearrangement of what was there. On a
  linear order that determines the result (lemma \<open>std_sort_unique\<close> below), so the
  library's own sorting function stands for it. The C++ name \<^verbatim>\<open>sorted\<close> is the name of
  HOL's predicate, hence the suffix.
\<close>

definition std_sort :: "'a::linorder list \<Rightarrow> 'a list" where
  "std_sort xs = sort xs"

definition sorted_container :: "'a::linorder list \<Rightarrow> 'a list" where
  "sorted_container container = std_sort container"

subsection \<open>Integral types and \<^verbatim>\<open>downCast\<close>\<close>

text \<open>
  \<^verbatim>\<open>downCast<Small, Large>\<close> is a template over two integral types. An integral type is
  its signedness and its width in bits; a value of the type is the integer it denotes.
  The types the header is used with are the fixed-width ones of \<^verbatim>\<open><cinttypes>\<close>.
\<close>

datatype error = AssertionFailed | FormatError

datatype signedness = Signed | Unsigned

record int_type =
  sign :: signedness
  width :: nat

definition uint8_t :: int_type where "uint8_t = \<lparr>sign = Unsigned, width = 8\<rparr>"
definition int8_t :: int_type where "int8_t = \<lparr>sign = Signed, width = 8\<rparr>"
definition uint16_t :: int_type where "uint16_t = \<lparr>sign = Unsigned, width = 16\<rparr>"
definition int16_t :: int_type where "int16_t = \<lparr>sign = Signed, width = 16\<rparr>"
definition uint32_t :: int_type where "uint32_t = \<lparr>sign = Unsigned, width = 32\<rparr>"
definition int32_t :: int_type where "int32_t = \<lparr>sign = Signed, width = 32\<rparr>"
definition uint64_t :: int_type where "uint64_t = \<lparr>sign = Unsigned, width = 64\<rparr>"
definition int64_t :: int_type where "int64_t = \<lparr>sign = Signed, width = 64\<rparr>"

definition integral :: "int_type \<Rightarrow> bool" where
  "integral T \<longleftrightarrow> width T = 8 \<or> width T = 16 \<or> width T = 32 \<or> width T = 64"

definition min_value :: "int_type \<Rightarrow> int" where
  "min_value T = (if sign T = Signed then - (2 ^ (width T - 1)) else 0)"

definition max_value :: "int_type \<Rightarrow> int" where
  "max_value T = (if sign T = Signed then 2 ^ (width T - 1) - 1 else 2 ^ width T - 1)"

text \<open>A value is representable in a type when it lies between the type's bounds.\<close>

definition representable :: "int_type \<Rightarrow> int \<Rightarrow> bool" where
  "representable T v \<longleftrightarrow> min_value T \<le> v \<and> v \<le> max_value T"

text \<open>
  \<^verbatim>\<open>static_cast<T>(v)\<close> on integers keeps the low \<open>width T\<close> bits: the value modulo
  \<open>2 ^ width T\<close>, read as unsigned or as two's complement. (For a signed target this is
  what the compilers of this code base do; the language leaves it to the implementation
  before C++20.) The implicit conversion of an operand to the common type of an
  arithmetic operator is the same function.
\<close>

definition static_cast :: "int_type \<Rightarrow> int \<Rightarrow> int" where
  "static_cast T v =
     (if sign T = Signed
      then (v + 2 ^ (width T - 1)) mod 2 ^ width T - 2 ^ (width T - 1)
      else v mod 2 ^ width T)"

text \<open>
  The operands of \<^verbatim>\<open>large - small\<close> undergo the usual arithmetic conversions. First the
  integral promotion: a type narrower than \<^verbatim>\<open>int\<close> (32 bits) becomes \<^verbatim>\<open>int\<close>. Then, for
  two promoted types: with the same signedness the wider one is the common type; with
  different signedness the unsigned type is the common type when it is at least as wide
  as the signed one, and the signed type otherwise (it then holds every value of the
  unsigned one).
\<close>

definition int_t :: int_type where
  "int_t = \<lparr>sign = Signed, width = 32\<rparr>"

definition promote :: "int_type \<Rightarrow> int_type" where
  "promote T = (if width T < width int_t then int_t else T)"

definition usual_arithmetic_conversions :: "int_type \<Rightarrow> int_type \<Rightarrow> int_type" where
  "usual_arithmetic_conversions A B =
     (let A' = promote A; B' = promote B in
      if sign A' = sign B' then (if width B' \<le> width A' then A' else B')
      else
        let U = (if sign A' = Unsigned then A' else B');
            S = (if sign A' = Signed then A' else B')
        in if width S \<le> width U then U else S)"

text \<open>
  \<^verbatim>\<open>a - b\<close> for \<open>a\<close> of type \<open>A\<close> and \<open>b\<close> of type \<open>B\<close>: both operands are converted to
  the common type and subtracted there. Unsigned subtraction wraps around. Signed
  overflow has no defined result in C++; the model gives it the two's complement
  wrap-around of the machine, which is never \<open>0\<close> when the exact difference is not.
\<close>

definition minus_op :: "int_type \<Rightarrow> int \<Rightarrow> int_type \<Rightarrow> int \<Rightarrow> int" where
  "minus_op A a B b =
     (let T = usual_arithmetic_conversions A B
      in static_cast T (static_cast T a - static_cast T b))"

text \<open>
  \<^verbatim>\<open>a != b\<close> on integers: both operands are converted to the common type and compared
  there.
\<close>

definition not_equal_op :: "int_type \<Rightarrow> int \<Rightarrow> int_type \<Rightarrow> int \<Rightarrow> bool" where
  "not_equal_op A a B b =
     (let T = usual_arithmetic_conversions A B
      in static_cast T a \<noteq> static_cast T b)"

text \<open>
  \<^verbatim>\<open>Small small = static_cast<Small>(large); assert(large - small == 0); return small;\<close>
  The assertion is compiled in (\<^verbatim>\<open>NDEBUG\<close> is not defined); when it fails the process
  aborts, which is the result \<open>Inl AssertionFailed\<close>.
\<close>

definition downCast :: "int_type \<Rightarrow> int_type \<Rightarrow> int \<Rightarrow> error + int" where
  "downCast Small Large large =
     (let small = static_cast Small large
      in if minus_op Large large Small small = 0 then Inr small else Inl AssertionFailed)"

subsection \<open>\<^verbatim>\<open>isPrintable\<close> with a length\<close>

text \<open>
  Modelled from the spec: the body of \<^verbatim>\<open>isPrintable(const void* data, size_t length)\<close>,
  which \<^verbatim>\<open>Common.h\<close> only declares. The specification's section 4.3: the function fails
  immediately if \<open>length = 0\<close>; otherwise it requires \<open>buffer[length-1] = 0x00\<close> and
  returns false if that is absent; otherwise every byte of \<open>buffer[0 .. length-2]\<close> must
  satisfy the printable-byte rule, codes \<open>0x20\<close> to \<open>0x7E\<close> inclusive. The buffer is the
  list of its bytes and holds at least \<open>length\<close> of them.
\<close>

type_synonym byte = "8 word"

definition printable_byte :: "byte \<Rightarrow> bool" where
  "printable_byte c \<longleftrightarrow> 0x20 \<le> c \<and> c \<le> 0x7E"

fun all_printable :: "byte list \<Rightarrow> bool" where
  "all_printable [] = True"
| "all_printable (c # cs) = (if printable_byte c then all_printable cs else False)"

definition isPrintable :: "byte list \<Rightarrow> nat \<Rightarrow> bool" where
  "isPrintable buffer len =
     (if len = 0 then False
      else if buffer ! (len - 1) \<noteq> 0x00 then False
      else all_printable (take (len - 1) buffer))"

subsection \<open>\<^verbatim>\<open>replaceAll\<close>\<close>

text \<open>
  \<^verbatim>\<open>std::string::find(str, pos)\<close>: the lowest position \<open>\<ge> pos\<close> at which \<open>str\<close> occurs,
  or \<^verbatim>\<open>npos\<close> (here \<open>None\<close>) when there is none or \<open>pos\<close> is beyond the end.
  \<^verbatim>\<open>std::string::replace(pos, len, str)\<close>: the characters \<open>[pos, pos + len)\<close> give way
  to \<open>str\<close>.
\<close>

fun find_first :: "string \<Rightarrow> string \<Rightarrow> nat option" where
  "find_first needle [] = (if needle = [] then Some 0 else None)"
| "find_first needle (c # cs) =
     (if take (length needle) (c # cs) = needle then Some 0
      else map_option Suc (find_first needle cs))"

definition std_find :: "string \<Rightarrow> string \<Rightarrow> nat \<Rightarrow> nat option" where
  "std_find haystack needle pos =
     (if length haystack < pos then None
      else map_option (\<lambda>i. pos + i) (find_first needle (drop pos haystack)))"

definition std_replace :: "string \<Rightarrow> nat \<Rightarrow> nat \<Rightarrow> string \<Rightarrow> string" where
  "std_replace s pos len str = take pos s @ str @ drop (pos + len) s"

text \<open>
  Modelled from the spec: the body of \<^verbatim>\<open>replaceAll\<close>, which \<^verbatim>\<open>Common.h\<close> only declares.
  The specification's section 4.4: scan the haystack left to right for the next
  occurrence of the needle; substitute the replacement for it in place; resume the
  search at the position immediately after the inserted replacement; stop when no
  occurrence is left. An empty needle is a no-op by policy. The loop may in principle
  run forever, so its result is an option: \<open>None\<close> stands for a loop that does not
  return, \<open>Some\<close> holds the haystack as the call leaves it.
\<close>

partial_function (option) replaceAll_loop ::
  "string \<Rightarrow> string \<Rightarrow> string \<Rightarrow> nat \<Rightarrow> string option" where
  "replaceAll_loop needle replacement haystack startPos =
     (case std_find haystack needle startPos of
        None \<Rightarrow> Some haystack
      | Some replacePos \<Rightarrow>
          replaceAll_loop needle replacement
            (std_replace haystack replacePos (length needle) replacement)
            (replacePos + length replacement))"

declare replaceAll_loop.simps [code]

definition replaceAll :: "string \<Rightarrow> string \<Rightarrow> string \<Rightarrow> string option" where
  "replaceAll haystack needle replacement =
     (if needle = [] then Some haystack
      else replaceAll_loop needle replacement haystack 0)"

text \<open>
  What the specification says the call computes, in its own words: the string obtained
  by replacing every non-overlapping occurrence of the needle, found in a single
  left-to-right scan, with the replacement. At each position either the needle starts
  there, and the replacement is emitted and the needle skipped, or the character is
  kept. With an empty needle no occurrence is considered found.
\<close>

fun replace_occurrences :: "string \<Rightarrow> string \<Rightarrow> string \<Rightarrow> string" where
  "replace_occurrences needle replacement [] = []"
| "replace_occurrences needle replacement (c # cs) =
     (if needle = [] then c # cs
      else if take (length needle) (c # cs) = needle
      then replacement @ replace_occurrences needle replacement (drop (length needle) (c # cs))
      else c # replace_occurrences needle replacement cs)"

subsection \<open>\<^verbatim>\<open>format\<close>\<close>

text \<open>
  Modelled from the spec: the body of \<^verbatim>\<open>format\<close>, which \<^verbatim>\<open>Common.h\<close> only declares, and
  the interpolation primitive it calls. The specification's section 4.2: interpolate
  into a buffer of a guessed capacity; the primitive reports the length the fully
  expanded result requires even when the buffer is too small, or a negative value on
  error; if the required length fits, return the first \<open>required\<close> bytes; otherwise
  allocate \<open>required + 1\<close> bytes, interpolate once more and return the first
  \<open>required\<close> bytes; an error at any pass is \<open>FormatError\<close>.

  A template with its arguments is represented by what the primitive makes of it:
  \<open>Some\<close> of the fully expanded text, or \<open>None\<close> when the primitive reports an error.
  A pass into a buffer of \<open>capacity\<close> bytes leaves the first \<open>capacity - 1\<close> characters
  of the text (the last byte is the terminator) and reports the full length. The
  required length fits a buffer when the terminator fits as well, which is why the
  second buffer has \<open>required + 1\<close> bytes. The guessed capacity is a parameter.
  \<open>format_passes\<close> returns the result together with the number of passes made.
\<close>

definition interpolate :: "string option \<Rightarrow> nat \<Rightarrow> string \<times> int" where
  "interpolate expansion capacity =
     (case expansion of
        None \<Rightarrow> ([], - 1)
      | Some s \<Rightarrow> (take (capacity - 1) s, int (length s)))"

definition format_passes :: "nat \<Rightarrow> string option \<Rightarrow> (error + string) \<times> nat" where
  "format_passes guess expansion =
     (let (buf, required) = interpolate expansion guess in
      if required < 0 then (Inl FormatError, 1)
      else if nat required < guess then (Inr (take (nat required) buf), 1)
      else
        let (buf2, required2) = interpolate expansion (nat required + 1) in
        if required2 < 0 then (Inl FormatError, 2)
        else (Inr (take (nat required) buf2), 2))"

definition format :: "nat \<Rightarrow> string option \<Rightarrow> error + string" where
  "format guess expansion = fst (format_passes guess expansion)"


section \<open>Properties\<close>

subsection \<open>The container helpers\<close>

lemma getKeys_loop_eq: "getKeys_loop m keys = keys @ map fst m"
  by (induction m arbitrary: keys) (simp_all add: push_back_def)

lemma getValues_loop_eq: "getValues_loop m vals = vals @ map snd m"
  by (induction m arbitrary: vals) (simp_all add: push_back_def)

lemma getItems_loop_eq: "getItems_loop m items = items @ m"
  by (induction m arbitrary: items) (simp_all add: push_back_def)

lemma getKeys_eq: "getKeys m = map fst m"
  by (simp add: getKeys_def getKeys_loop_eq)

lemma getValues_eq: "getValues m = map snd m"
  by (simp add: getValues_def getValues_loop_eq)

lemma getItems_eq: "getItems m = m"
  by (simp add: getItems_def getItems_loop_eq)

lemma std_sort_unique:
  "sorted ys \<Longrightarrow> mset ys = mset xs \<Longrightarrow> ys = std_sort xs"
  unfolding std_sort_def by (rule properties_for_sort [symmetric]) simp_all

text \<open>
  C8. \<^verbatim>\<open>hasOnly(haystack, needle)\<close> is true if and only if every element of the
  sequence compares equal to the reference value, that is, \<^verbatim>\<open>element != needle\<close> is
  false for each of them, whatever the comparison of the two types is.
\<close>

theorem hasOnly_iff_all_equal:
  "hasOnly ne haystack needle \<longleftrightarrow> (\<forall>x \<in> set haystack. \<not> ne x needle)"
  by (induction haystack) simp_all

theorem hasOnly_iff_all_equal_witness:
  "hasOnly (\<noteq>) [7, 7, 7 :: nat] (7 :: nat)
   \<and> \<not> hasOnly (\<noteq>) [7, 8, 7 :: nat] (7 :: nat) \<and> (8 :: nat) \<in> set [7, 8, 7]
   \<and> hasOnly (\<lambda>x y. not_equal_op int32_t x uint32_t y) [- 1, - 1] 4294967295
   \<and> \<not> not_equal_op int32_t (- 1) uint32_t 4294967295
   \<and> \<not> hasOnly (\<lambda>x y. not_equal_op int32_t x uint32_t y) [- 1, 0] 4294967295
   \<and> not_equal_op int32_t 0 uint32_t 4294967295"
  using hasOnly_iff_all_equal [of "(\<noteq>)" "[7, 7, 7 :: nat]" "7 :: nat"]
    hasOnly_iff_all_equal [of "(\<noteq>)" "[7, 8, 7 :: nat]" "7 :: nat"]
    hasOnly_iff_all_equal [of "\<lambda>x y. not_equal_op int32_t x uint32_t y" "[- 1, - 1]" 4294967295]
    hasOnly_iff_all_equal [of "\<lambda>x y. not_equal_op int32_t x uint32_t y" "[- 1, 0]" 4294967295]
  by (simp add: not_equal_op_def usual_arithmetic_conversions_def promote_def
      static_cast_def int_t_def int32_t_def uint32_t_def)

text \<open>
  C9. \<^verbatim>\<open>sorted(container)\<close> returns the elements of its argument in non-decreasing
  order: the result is sorted and is a permutation of the input (the same multiset of
  elements).
\<close>

theorem sorted_container_sorted_permutation:
  "sorted (sorted_container container)
   \<and> mset (sorted_container container) = mset container"
  by (simp add: sorted_container_def std_sort_def)

text \<open>
  C10. \<^verbatim>\<open>getKeys\<close>, \<^verbatim>\<open>getValues\<close> and \<^verbatim>\<open>getItems\<close> each return as many elements as the
  container has entries, and the \<open>i\<close>-th item is the pair of the \<open>i\<close>-th key and the
  \<open>i\<close>-th value: \<^verbatim>\<open>getItems\<close> is the zip of \<^verbatim>\<open>getKeys\<close> and \<^verbatim>\<open>getValues\<close>.
\<close>

theorem getItems_zip_getKeys_getValues:
  "length (getKeys m) = length m
   \<and> length (getValues m) = length m
   \<and> length (getItems m) = length m
   \<and> (\<forall>i < length m. getItems m ! i = (getKeys m ! i, getValues m ! i))
   \<and> getItems m = zip (getKeys m) (getValues m)"
  by (simp add: getKeys_eq getValues_eq getItems_eq zip_map_fst_snd)

theorem getItems_zip_getKeys_getValues_witness:
  "getKeys [(1 :: nat, ''a''), (2, ''b'')] = [1, 2]
   \<and> getValues [(1 :: nat, ''a''), (2, ''b'')] = [''a'', ''b'']
   \<and> (1 :: nat) < length [(1 :: nat, ''a''), (2, ''b'')]
   \<and> getItems [(1 :: nat, ''a''), (2, ''b'')] ! 1
       = (getKeys [(1 :: nat, ''a''), (2, ''b'')] ! 1,
          getValues [(1 :: nat, ''a''), (2, ''b'')] ! 1)"
  using getItems_zip_getKeys_getValues [of "[(1 :: nat, ''a''), (2, ''b'')]"]
  by (simp add: getKeys_eq getValues_eq)

subsection \<open>Conversions and subtraction\<close>

lemma static_cast_representable:
  assumes "0 < width T" "representable T v"
  shows "static_cast T v = v"
proof (cases "sign T")
  case Signed
  from assms(1) have p: "(2::int) ^ width T = 2 * 2 ^ (width T - 1)"
    by (cases "width T") simp_all
  from assms(2) Signed have "0 \<le> v + 2 ^ (width T - 1)" "v + 2 ^ (width T - 1) < 2 ^ width T"
    by (simp_all add: representable_def min_value_def max_value_def p)
  then have "(v + 2 ^ (width T - 1)) mod 2 ^ width T = v + 2 ^ (width T - 1)"
    by simp
  with Signed show ?thesis by (simp add: static_cast_def)
next
  case Unsigned
  with assms(2) show ?thesis
    by (simp add: static_cast_def representable_def min_value_def max_value_def)
qed

lemma representable_static_cast:
  assumes "0 < width T"
  shows "representable T (static_cast T v)"
proof (cases "sign T")
  case Signed
  from assms(1) have p: "(2::int) ^ width T = 2 * 2 ^ (width T - 1)"
    by (cases "width T") simp_all
  have "0 \<le> (v + 2 ^ (width T - 1)) mod 2 ^ width T"
    "(v + 2 ^ (width T - 1)) mod 2 ^ width T < 2 ^ width T"
    by simp_all
  with Signed show ?thesis
    by (simp add: static_cast_def representable_def min_value_def max_value_def p)
next
  case Unsigned
  have "0 \<le> v mod 2 ^ width T" "v mod 2 ^ width T < 2 ^ width T" by simp_all
  with Unsigned show ?thesis
    by (simp add: static_cast_def representable_def min_value_def max_value_def)
qed


lemma static_cast_dvd: "(2::int) ^ width T dvd static_cast T v - v"
proof (cases "sign T")
  case Signed
  have "(2::int) ^ width T dvd (v + 2 ^ (width T - 1)) mod 2 ^ width T - (v + 2 ^ (width T - 1))"
    by (simp add: mod_eq_dvd_iff [symmetric])
  with Signed show ?thesis by (simp add: static_cast_def algebra_simps)
next
  case Unsigned
  have "(2::int) ^ width T dvd v mod 2 ^ width T - v"
    by (simp add: mod_eq_dvd_iff [symmetric])
  with Unsigned show ?thesis by (simp add: static_cast_def)
qed


lemma static_cast_eq_0_iff:
  assumes "0 < width T"
  shows "static_cast T x = 0 \<longleftrightarrow> 2 ^ width T dvd x"
proof
  assume "static_cast T x = 0"
  with static_cast_dvd [of T x] show "2 ^ width T dvd x" by simp
next
  assume d: "2 ^ width T dvd x"
  have "2 ^ width T dvd (static_cast T x - x) + x"
    using static_cast_dvd [of T x] d by (rule dvd_add)
  then have dd: "2 ^ width T dvd static_cast T x" by simp
  from assms(1) have p: "(2::int) ^ width T = 2 * 2 ^ (width T - 1)"
    by (cases "width T") simp_all
  have "(0::int) < 2 ^ (width T - 1)" by simp
  with representable_static_cast [OF assms, of x]
  have "\<bar>static_cast T x\<bar> < 2 ^ width T"
    by (auto simp: representable_def min_value_def max_value_def p split: if_splits)
  then have lt: "\<bar>static_cast T x\<bar> < \<bar>(2::int) ^ width T\<bar>" by simp
  show "static_cast T x = 0"
  proof (rule ccontr)
    assume "static_cast T x \<noteq> 0"
    from dvd_imp_le_int [OF this dd] lt show False by linarith
  qed
qed

lemma width_promote: "width (promote T) = max 32 (width T)"
  by (simp add: promote_def int_t_def)

lemma width_usual_arithmetic_conversions:
  "width (usual_arithmetic_conversions A B) = max 32 (max (width A) (width B))"
  by (cases "sign (promote A)"; cases "sign (promote B)")
    (auto simp: usual_arithmetic_conversions_def Let_def width_promote)

lemma minus_op_eq_0_iff:
  "minus_op A a B b = 0 \<longleftrightarrow> 2 ^ max 32 (max (width A) (width B)) dvd a - b"
proof -
  define T where "T = usual_arithmetic_conversions A B"
  have w: "width T = max 32 (max (width A) (width B))"
    by (simp add: T_def width_usual_arithmetic_conversions)
  then have pos: "0 < width T" by simp
  have "static_cast T a - static_cast T b = (a - b) + ((static_cast T a - a) - (static_cast T b - b))"
    by simp
  moreover have "2 ^ width T dvd (static_cast T a - a) - (static_cast T b - b)"
    by (intro dvd_diff static_cast_dvd)
  ultimately have "2 ^ width T dvd static_cast T a - static_cast T b \<longleftrightarrow> 2 ^ width T dvd a - b"
    by (metis dvd_add_left_iff)
  then show ?thesis
    by (simp add: minus_op_def T_def [symmetric] static_cast_eq_0_iff [OF pos] w)
qed

lemma downCast_eq:
  "downCast Small Large v =
     (if 2 ^ max 32 (max (width Large) (width Small)) dvd v - static_cast Small v
      then Inr (static_cast Small v) else Inl AssertionFailed)"
  by (simp add: downCast_def Let_def minus_op_eq_0_iff)


lemma mod_diff_dvd:
  fixes a b m :: int
  assumes "m dvd b"
  shows "(a - b) mod m = a mod m"
proof -
  have "(a - b) mod m = (a - b mod m) mod m" by (simp add: mod_diff_right_eq)
  with assms show ?thesis by simp
qed

lemma static_cast_minus_power:
  assumes "width T \<le> W"
  shows "static_cast T (v - 2 ^ W) = static_cast T v"
proof -
  from assms have "(2::int) ^ width T dvd 2 ^ W" by (rule le_imp_power_dvd)
  then have "\<And>a::int. (a - 2 ^ W) mod 2 ^ width T = a mod 2 ^ width T"
    by (rule mod_diff_dvd)
  from this [of v] this [of "v + 2 ^ (width T - 1)"] show ?thesis
    by (simp add: static_cast_def algebra_simps)
qed

lemma downCast_characterisation:
  assumes wS: "0 < width Small" and lt: "width Small < width Large"
    and rL: "representable Large v"
  shows "downCast Small Large v =
     (if representable Small v then Inr v
      else if sign Large = Unsigned \<and> sign Small = Signed \<and> 32 \<le> width Large
              \<and> 2 ^ width Large - 2 ^ (width Small - 1) \<le> v
      then Inr (v - 2 ^ width Large)
      else Inl AssertionFailed)"
proof -
  define s where "s = static_cast Small v"
  define a :: int where "a = 2 ^ (width Small - 1)"
  define b :: int where "b = 2 ^ (width Large - 1)"
  define N :: int where "N = 2 ^ max 32 (max (width Large) (width Small))"
  have pa: "(2::int) ^ width Small = 2 * a"
    using wS by (cases "width Small") (simp_all add: a_def)
  have pb: "(2::int) ^ width Large = 2 * b"
    using lt by (cases "width Large") (simp_all add: b_def)
  have a_pos: "0 < a" by (simp add: a_def)
  have "(2::int) ^ width Small \<le> 2 ^ (width Large - 1)"
    using lt by (intro power_increasing) simp_all
  then have ab: "2 * a \<le> b" by (simp add: pa b_def)
  have NL: "2 * b \<le> N"
    unfolding N_def pb [symmetric] by (intro power_increasing) simp_all
  have dc: "downCast Small Large v = (if N dvd v - s then Inr s else Inl AssertionFailed)"
    by (simp add: downCast_eq N_def s_def)
  have rs: "representable Small s"
    unfolding s_def by (rule representable_static_cast [OF wS])
  have vS: "- b \<le> v \<and> v < b" if "sign Large = Signed"
    using rL that by (simp add: representable_def min_value_def max_value_def b_def)
  have vU: "0 \<le> v \<and> v < 2 * b" if "sign Large = Unsigned"
    using rL that unfolding pb [symmetric]
    by (simp add: representable_def min_value_def max_value_def)
  have sS: "- a \<le> s \<and> s < a" if "sign Small = Signed"
    using rs that by (simp add: representable_def min_value_def max_value_def a_def)
  have sU: "0 \<le> s \<and> s < 2 * a" if "sign Small = Unsigned"
    using rs that unfolding pa [symmetric]
    by (simp add: representable_def min_value_def max_value_def)
  show ?thesis
  proof (cases "representable Small v")
    case True
    then have "s = v" unfolding s_def by (rule static_cast_representable [OF wS])
    with True dc show ?thesis by simp
  next
    case nr: False
    with rs have ne: "v - s \<noteq> 0" by auto
    show ?thesis
    proof (cases "sign Large = Unsigned \<and> sign Small = Signed \<and> 32 \<le> width Large
              \<and> 2 ^ width Large - 2 ^ (width Small - 1) \<le> v")
      case True
      then have "2 * b - a \<le> v" by (simp add: pb a_def)
      with vU True have "- a \<le> v - 2 * b \<and> v - 2 * b < a" using a_pos by simp
      with True have "representable Small (v - 2 ^ width Large)"
        unfolding pb by (simp add: representable_def min_value_def max_value_def a_def)
      then have "static_cast Small (v - 2 ^ width Large) = v - 2 ^ width Large"
        by (rule static_cast_representable [OF wS])
      moreover have "static_cast Small (v - 2 ^ width Large) = s"
        unfolding s_def using lt by (intro static_cast_minus_power) simp
      ultimately have s: "s = v - 2 ^ width Large" by simp
      from True lt have "N = 2 ^ width Large" by (simp add: N_def max_def)
      with s have "N dvd v - s" by simp
      with dc s nr True show ?thesis by simp
    next
      case False
      have bound: "\<bar>v - s\<bar> < N"
      proof (cases "sign Large")
        case Signed
        from vS [OF Signed] sS sU ab NL a_pos show ?thesis
          by (cases "sign Small") auto
      next
        case L: Unsigned
        show ?thesis
        proof (cases "sign Small")
          case Unsigned
          from vU [OF L] sU [OF Unsigned] ab NL a_pos show ?thesis by auto
        next
          case S: Signed
          show ?thesis
          proof (cases "32 \<le> width Large")
            case True
            with False L S have "v < 2 * b - a" by (simp add: pb a_def)
            with vU [OF L] sS [OF S] ab NL a_pos show ?thesis by auto
          next
            case w: False
            then have "(2::int) ^ width Large \<le> 2 ^ 31"
              by (intro power_increasing) simp_all
            moreover from w lt have "N = 2 ^ 32" by (simp add: N_def max_def)
            ultimately have "4 * b \<le> N" by (simp add: pb)
            with vU [OF L] sS [OF S] ab a_pos show ?thesis by auto
          qed
        qed
      qed
      have "\<not> N dvd v - s"
      proof
        assume "N dvd v - s"
        from dvd_imp_le_int [OF ne this] bound show False by (simp add: N_def)
      qed
      with dc nr False show ?thesis by simp
    qed
  qed
qed

subsection \<open>The claims about \<^verbatim>\<open>downCast\<close>\<close>

text \<open>
  C1. The claim: for every value of the wider source type that is not representable in
  the narrower target type, \<^verbatim>\<open>downCast\<close> aborts, for all combinations of signed and
  unsigned types. The code does not do so for an unsigned source of 32 or 64 bits and a
  narrower signed target: the largest value of \<^verbatim>\<open>uint64_t\<close> is not representable in
  \<^verbatim>\<open>int32_t\<close>, the cast gives \<open>-1\<close>, the subtraction converts it back to
  \<^verbatim>\<open>uint64_t\<close>, the difference is \<open>0\<close> and \<open>-1\<close> is returned. Lemma
  \<open>downCast_characterisation\<close> above says that these are the only values that escape
  the assertion.
\<close>

theorem downCast_uint64_to_int32_escapes:
  "representable uint64_t 18446744073709551615
   \<and> \<not> representable int32_t 18446744073709551615
   \<and> downCast int32_t uint64_t 18446744073709551615 = Inr (- 1)"
  by (simp add: downCast_def minus_op_def usual_arithmetic_conversions_def promote_def
      static_cast_def representable_def min_value_def max_value_def
      int_t_def int32_t_def uint64_t_def)

text \<open>
  C2. For every value of the source type that is representable in the target type,
  \<^verbatim>\<open>downCast\<close> does not abort and returns that very value; converted back to the
  source type it is the value that was passed in.
\<close>

theorem downCast_representable_roundtrip:
  assumes "integral Small" and "integral Large"
    and "representable Large v" and "representable Small v"
  shows "downCast Small Large v = Inr v \<and> static_cast Large v = v"
proof -
  from assms(1) have "0 < width Small" by (auto simp: integral_def)
  then have "static_cast Small v = v"
    using assms(4) by (rule static_cast_representable)
  then have "downCast Small Large v = Inr v" by (simp add: downCast_eq)
  moreover from assms(2) have "0 < width Large" by (auto simp: integral_def)
  then have "static_cast Large v = v"
    using assms(3) by (rule static_cast_representable)
  ultimately show ?thesis by simp
qed

theorem downCast_representable_roundtrip_witness:
  "integral uint32_t \<and> integral uint64_t
   \<and> representable uint64_t 4096 \<and> representable uint32_t 4096
   \<and> downCast uint32_t uint64_t 4096 = Inr 4096
   \<and> static_cast uint64_t 4096 = 4096"
  using downCast_representable_roundtrip [of uint32_t uint64_t 4096]
  by (simp add: integral_def representable_def min_value_def max_value_def
      uint32_t_def uint64_t_def)

subsection \<open>The claim about \<^verbatim>\<open>isPrintable\<close>\<close>

lemma all_printable_iff:
  "all_printable bs \<longleftrightarrow> (\<forall>i < length bs. printable_byte (bs ! i))"
proof (induction bs)
  case Nil
  then show ?case by simp
next
  case (Cons b bs)
  show ?case
    by (auto simp: Cons.IH nth_Cons split: nat.splits)
qed

text \<open>
  C3. For a buffer of at least \<open>len\<close> bytes, \<^verbatim>\<open>isPrintable(data, len)\<close> is false when
  \<open>len = 0\<close>, false when the last of the \<open>len\<close> bytes is not \<open>0x00\<close>, and otherwise true
  if and only if each of the bytes before the last lies in \<open>0x20 .. 0x7E\<close>. A buffer of
  the terminator alone is printable.
\<close>

theorem isPrintable_length_bounded:
  assumes "len \<le> length data"
  shows "(len = 0 \<longrightarrow> \<not> isPrintable data len)
    \<and> (0 < len \<and> data ! (len - 1) \<noteq> 0 \<longrightarrow> \<not> isPrintable data len)
    \<and> (0 < len \<and> data ! (len - 1) = 0 \<longrightarrow>
         (isPrintable data len
          \<longleftrightarrow> (\<forall>i < len - 1. 0x20 \<le> data ! i \<and> data ! i \<le> 0x7E)))
    \<and> (len = 1 \<and> data ! 0 = 0 \<longrightarrow> isPrintable data len)"
  using assms
  by (auto simp: isPrintable_def all_printable_iff printable_byte_def)

theorem isPrintable_length_bounded_witness:
  "(6 :: nat) \<le> length [0x68, 0x65, 0x6c, 0x6c, 0x6f, 0 :: byte]
   \<and> [0x68, 0x65, 0x6c, 0x6c, 0x6f, 0 :: byte] ! (6 - 1) = 0
   \<and> isPrintable [0x68, 0x65, 0x6c, 0x6c, 0x6f, 0] 6
   \<and> (7 :: nat) \<le> length [0x68, 0x65, 0x6c, 0x0a, 0x6c, 0x6f, 0 :: byte]
   \<and> \<not> isPrintable [0x68, 0x65, 0x6c, 0x0a, 0x6c, 0x6f, 0] 7
   \<and> isPrintable [0] 1"
  using isPrintable_length_bounded [of 6 "[0x68, 0x65, 0x6c, 0x6c, 0x6f, 0]"]
    isPrintable_length_bounded [of 7 "[0x68, 0x65, 0x6c, 0x0a, 0x6c, 0x6f, 0]"]
    isPrintable_length_bounded [of 1 "[0]"]
  by (simp add: isPrintable_def printable_byte_def)

subsection \<open>The claims about \<^verbatim>\<open>replaceAll\<close>\<close>

lemma take_eq_length_le:
  assumes "take (length needle) xs = needle"
  shows "length needle \<le> length xs"
proof -
  from assms have "length (take (length needle) xs) = length needle"
    by (rule arg_cong)
  then have "min (length xs) (length needle) = length needle"
    by (simp only: length_take)
  then show ?thesis by linarith
qed

lemma find_first_bounds:
  "find_first needle str = Some i \<Longrightarrow> i + length needle \<le> length str"
proof (induction str arbitrary: i)
  case Nil
  then show ?case by (simp split: if_splits)
next
  case (Cons c cs)
  show ?case
  proof (cases "take (length needle) (c # cs) = needle")
    case True
    then have "length needle \<le> length (c # cs)"
      by (rule take_eq_length_le)
    with True Cons.prems show ?thesis by simp
  next
    case False
    with Cons.prems obtain j where "find_first needle cs = Some j" "i = Suc j"
      by auto
    with Cons.IH [of j] show ?thesis by simp
  qed
qed

lemma replace_occurrences_no_match:
  "needle \<noteq> [] \<Longrightarrow> find_first needle str = None
   \<Longrightarrow> replace_occurrences needle replacement str = str"
  by (induction str) (simp_all split: if_splits)

lemma replace_occurrences_match:
  "needle \<noteq> [] \<Longrightarrow> find_first needle str = Some i
   \<Longrightarrow> replace_occurrences needle replacement str
       = take i str @ replacement
         @ replace_occurrences needle replacement (drop (i + length needle) str)"
proof (induction str arbitrary: i)
  case Nil
  then show ?case by simp
next
  case (Cons c cs)
  show ?case
  proof (cases "take (length needle) (c # cs) = needle")
    case True
    with Cons.prems show ?thesis by simp
  next
    case False
    with Cons.prems obtain j where j: "find_first needle cs = Some j" "i = Suc j"
      by auto
    from Cons.IH [OF Cons.prems(1) j(1)] False Cons.prems(1) j(2) show ?thesis by simp
  qed
qed

lemma replaceAll_loop_eq:
  assumes "needle \<noteq> []" "startPos \<le> length haystack"
  shows "replaceAll_loop needle replacement haystack startPos
         = Some (take startPos haystack
                 @ replace_occurrences needle replacement (drop startPos haystack))"
  using assms(2)
proof (induction "length haystack - startPos" arbitrary: haystack startPos rule: less_induct)
  case less
  let ?rest = "drop startPos haystack"
  show ?case
  proof (cases "find_first needle ?rest")
    case None
    with less.prems have "std_find haystack needle startPos = None"
      by (simp add: std_find_def)
    moreover from None have "replace_occurrences needle replacement ?rest = ?rest"
      by (rule replace_occurrences_no_match [OF assms(1)])
    ultimately show ?thesis
      by (subst replaceAll_loop.simps) simp
  next
    case (Some i)
    let ?p = "startPos + i"
    let ?h = "std_replace haystack ?p (length needle) replacement"
    from find_first_bounds [OF Some] less.prems
    have b: "?p + length needle \<le> length haystack" by simp
    from Some less.prems have f: "std_find haystack needle startPos = Some ?p"
      by (simp add: std_find_def)
    have len: "length ?h = ?p + length replacement + (length haystack - (?p + length needle))"
      using b by (simp add: std_replace_def)
    have tk: "take (?p + length replacement) ?h = take ?p haystack @ replacement"
      using b by (simp add: std_replace_def)
    have dr: "drop (?p + length replacement) ?h = drop (?p + length needle) haystack"
      using b by (simp add: std_replace_def)
    have "length ?h - (?p + length replacement) < length haystack - startPos"
      using b assms(1) by (simp add: len) (cases needle; simp)
    moreover have "?p + length replacement \<le> length ?h" by (simp add: len)
    ultimately have IH: "replaceAll_loop needle replacement ?h (?p + length replacement)
        = Some (take (?p + length replacement) ?h
                @ replace_occurrences needle replacement (drop (?p + length replacement) ?h))"
      by (rule less.hyps)
    have "replace_occurrences needle replacement ?rest
        = take i ?rest @ replacement
          @ replace_occurrences needle replacement (drop (i + length needle) ?rest)"
      by (rule replace_occurrences_match [OF assms(1) Some])
    moreover have "take startPos haystack @ take i ?rest = take ?p haystack"
      by (simp add: take_add)
    moreover have "drop (i + length needle) ?rest = drop (?p + length needle) haystack"
      by (simp add: add.commute add.left_commute)
    ultimately have "take startPos haystack @ replace_occurrences needle replacement ?rest
        = take ?p haystack @ replacement
          @ replace_occurrences needle replacement (drop (?p + length needle) haystack)"
      by (metis append.assoc)
    with IH tk dr f show ?thesis
      by (subst replaceAll_loop.simps) simp
  qed
qed


lemma replaceAll_eq:
  assumes "needle \<noteq> []"
  shows "replaceAll haystack needle replacement
         = Some (replace_occurrences needle replacement haystack)"
  using replaceAll_loop_eq [OF assms, of 0 haystack replacement] assms
  by (simp add: replaceAll_def)

text \<open>
  C4. With a non-empty needle \<^verbatim>\<open>replaceAll\<close> returns, whatever the haystack and the
  replacement, also when the replacement contains the needle: the search resumes after
  the inserted text. \<^verbatim>\<open>replaceAll("aaa", "a", "aa")\<close> leaves the six characters
  \<^verbatim>\<open>"aaaaaa"\<close>.
\<close>

theorem replaceAll_terminates:
  assumes "needle \<noteq> []"
  shows "(\<exists>result. replaceAll haystack needle replacement = Some result)
    \<and> replaceAll ''aaa'' ''a'' ''aa'' = Some ''aaaaaa''
    \<and> map_option length (replaceAll ''aaa'' ''a'' ''aa'') = Some 6"
proof -
  have "replaceAll ''aaa'' ''a'' ''aa'' = Some (replace_occurrences ''a'' ''aa'' ''aaa'')"
    by (rule replaceAll_eq) simp
  then have "replaceAll ''aaa'' ''a'' ''aa'' = Some ''aaaaaa''" by simp
  with replaceAll_eq [OF assms, of haystack replacement] show ?thesis by simp
qed

theorem replaceAll_terminates_witness:
  "''ana'' \<noteq> [] \<and> (\<exists>result. replaceAll ''banana'' ''ana'' ''banana'' = Some result)"
  using replaceAll_terminates [of "''ana''" "''banana''" "''banana''"]
  by simp

text \<open>
  C5. With a non-empty needle \<^verbatim>\<open>replaceAll\<close> leaves the haystack with every
  non-overlapping occurrence of the needle, as a single left-to-right scan finds them,
  replaced. \<^verbatim>\<open>replaceAll("aaa", "a", "bb")\<close> leaves \<^verbatim>\<open>"bbbbbb"\<close>.
\<close>

theorem replaceAll_replaces_occurrences:
  assumes "needle \<noteq> []"
  shows "replaceAll haystack needle replacement
           = Some (replace_occurrences needle replacement haystack)
    \<and> replaceAll ''aaa'' ''a'' ''bb'' = Some ''bbbbbb''"
proof -
  have "replaceAll ''aaa'' ''a'' ''bb'' = Some (replace_occurrences ''a'' ''bb'' ''aaa'')"
    by (rule replaceAll_eq) simp
  then have "replaceAll ''aaa'' ''a'' ''bb'' = Some ''bbbbbb''" by simp
  with replaceAll_eq [OF assms, of haystack replacement] show ?thesis by simp
qed

theorem replaceAll_replaces_occurrences_witness:
  "''an'' \<noteq> [] \<and> replaceAll ''banana'' ''an'' ''AN'' = Some ''bANANa''"
  using replaceAll_replaces_occurrences [of "''an''" "''banana''" "''AN''"]
  by simp

subsection \<open>The claim about \<^verbatim>\<open>format\<close>\<close>

text \<open>
  C7. Whatever the guessed capacity and however long the expanded text is, \<^verbatim>\<open>format\<close>
  returns the whole of it, and a call makes at most two interpolation passes.
\<close>

theorem format_never_truncates:
  "format guess (Some s) = Inr s \<and> snd (format_passes guess expansion) \<le> 2"
  by (cases expansion) (simp_all add: format_def format_passes_def interpolate_def Let_def)

end
